theory Spec2Isabelle
  imports Main
begin

section \<open>Strings\<close>

text \<open>
  File names are byte strings. \<open>lower\<close> is \<^verbatim>\<open>str.lower()\<close> on the ASCII letters,
  \<open>startswith\<close> and \<open>endswith\<close> are the string methods of the same names, and
  \<open>contains s sub\<close> is Python's \<^verbatim>\<open>sub in s\<close>. Python also lower-cases letters
  beyond ASCII; no theorem about the selection depends on which characters \<open>lower\<close>
  changes.
\<close>

definition lower_char :: "char \<Rightarrow> char" where
  "lower_char c =
     (let n = (of_char c :: nat) in if 65 \<le> n \<and> n \<le> 90 then char_of (n + 32) else c)"

definition lower :: "string \<Rightarrow> string" where
  "lower s = map lower_char s"

fun startswith :: "string \<Rightarrow> string \<Rightarrow> bool" where
  "startswith s [] = True"
| "startswith [] (p # ps) = False"
| "startswith (c # cs) (p # ps) = (c = p \<and> startswith cs ps)"

definition endswith :: "string \<Rightarrow> string \<Rightarrow> bool" where
  "endswith s suffix = startswith (rev s) (rev suffix)"

text \<open>\<^verbatim>\<open>s.endswith((a, b, ...))\<close>: some member of the tuple is a suffix.\<close>

definition endswith_any :: "string \<Rightarrow> string list \<Rightarrow> bool" where
  "endswith_any s suffixes = list_ex (endswith s) suffixes"

fun contains :: "string \<Rightarrow> string \<Rightarrow> bool" where
  "contains [] sub = (sub = [])"
| "contains (c # cs) sub = (startswith (c # cs) sub \<or> contains cs sub)"

section \<open>Errors\<close>

text \<open>
  The exception classes the program raises or lets through. \<open>ValueError\<close> is what
  \<^verbatim>\<open>get_info\<close> and \<^verbatim>\<open>load\<close> raise for a project that is not found;
  \<open>FileNotFoundError\<close> is what \<^verbatim>\<open>load\<close> raises when no file is a candidate (and
  what \<^verbatim>\<open>open\<close> raises for a missing directory); \<open>KeyError\<close> is a missing column;
  \<open>RequestException\<close> stands for the failures of the HTTP library (connection errors,
  time-outs, \<^verbatim>\<open>raise_for_status\<close>); \<open>ConnectionError\<close> is what the constructor turns
  them into; \<open>LibraryError\<close> stands for whatever gzip or the table parsers raise.
  The program defines no exception class of its own.
\<close>

datatype error =
    ValueError
  | FileNotFoundError
  | KeyError
  | ConnectionError
  | RequestException
  | LibraryError

section \<open>File selection (the first half of \<^verbatim>\<open>load\<close>)\<close>

text \<open>
  One object of the file listing. The listing service answers with objects that carry
  these four keys.
\<close>

record file_entry =
  fileName :: string
  fileType :: string
  fileSizeBytes :: int
  downloadLink :: string

definition table_exts :: "string list" where
  "table_exts = [''.txt'', ''.csv'', ''.tsv'', ''.xlsx'', ''.txt.gz'', ''.tsv.gz'', ''.csv.gz'']"

definition priority_keywords :: "string list" where
  "priority_keywords = [''protein'', ''abundance'', ''intensity'', ''quant'',
                        ''report'', ''result'', ''maxquant'', ''diann'']"

definition is_candidate :: "file_entry \<Rightarrow> bool" where
  "is_candidate f \<longleftrightarrow>
     endswith_any (lower (fileName f)) table_exts \<and> fileSizeBytes f > 50000"

definition candidates_of :: "file_entry list \<Rightarrow> file_entry list" where
  "candidates_of files = filter is_candidate files"

text \<open>
  \<^verbatim>\<open>if file_pattern:\<close> is false for \<^verbatim>\<open>None\<close> and for the empty string; a pattern
  that matches nothing leaves the candidates as they were.
\<close>

definition pattern_narrow :: "string option \<Rightarrow> file_entry list \<Rightarrow> file_entry list" where
  "pattern_narrow file_pattern candidates =
     (case file_pattern of
        None \<Rightarrow> candidates
      | Some p \<Rightarrow>
          if p = [] then candidates
          else (let pattern_match =
                      filter (\<lambda>f. contains (lower (fileName f)) (lower p)) candidates
                in if pattern_match \<noteq> [] then pattern_match else candidates))"

text \<open>The inner loop: the first candidate, in listing order, whose name has the keyword.\<close>

fun first_with_keyword :: "string \<Rightarrow> file_entry list \<Rightarrow> file_entry option" where
  "first_with_keyword kw [] = None"
| "first_with_keyword kw (f # fs) =
     (if contains (lower (fileName f)) kw then Some f else first_with_keyword kw fs)"

text \<open>The outer loop: keywords in order, leaving at the first keyword that found a file.\<close>

fun keyword_pass :: "string list \<Rightarrow> file_entry list \<Rightarrow> file_entry option" where
  "keyword_pass [] candidates = None"
| "keyword_pass (kw # kws) candidates =
     (case first_with_keyword kw candidates of
        Some f \<Rightarrow> Some f
      | None \<Rightarrow> keyword_pass kws candidates)"

text \<open>
  \<^verbatim>\<open>max(candidates, key=lambda x: x['fileSizeBytes'])\<close>: the running maximum is
  replaced only by a strictly larger key, and an empty sequence raises \<open>ValueError\<close>.
\<close>

fun max_from :: "file_entry \<Rightarrow> file_entry list \<Rightarrow> file_entry" where
  "max_from best [] = best"
| "max_from best (f # fs) =
     max_from (if fileSizeBytes f > fileSizeBytes best then f else best) fs"

definition max_by_size :: "file_entry list \<Rightarrow> error + file_entry" where
  "max_by_size candidates =
     (case candidates of [] \<Rightarrow> Inl ValueError | f # fs \<Rightarrow> Inr (max_from f fs))"

definition select :: "file_entry list \<Rightarrow> string option \<Rightarrow> error + file_entry" where
  "select files file_pattern =
     (let candidates = candidates_of files in
      if candidates = [] then Inl FileNotFoundError
      else (let candidates = pattern_narrow file_pattern candidates in
            case keyword_pass priority_keywords candidates of
              Some best \<Rightarrow> Inr best
            | None \<Rightarrow> max_by_size candidates))"

section \<open>Tables\<close>

text \<open>
  A pandas data frame, row by row: the column labels and, for each row, one cell per
  column. \<open>NaN\<close> is the missing value.
\<close>

datatype cell = NaN | Text string | Number int

record dataframe =
  columns :: "string list"
  rows :: "cell list list"

section \<open>The world outside the program\<close>

text \<open>
  The files the program touches are the entries of \<^verbatim>\<open>CACHE_DIR\<close> and the temporary
  files. \<open>cache_dir\<close> is \<open>None\<close> when the directory does not exist, and otherwise maps
  the names of its entries to their bytes (file names are plain names, the layout is
  flat). \<open>requests_log\<close> lists the URLs requested so far, in order.
\<close>

type_synonym bytes = string

datatype path = InCache string | Temp nat

record world =
  cache_dir :: "(string \<rightharpoonup> bytes) option"
  temp_files :: "nat \<rightharpoonup> bytes"
  temp_next :: nat
  requests_log :: "string list"

text \<open>
  What an HTTP request comes back with: the status, the body in the chunks it arrives
  in, whether the transfer breaks after those chunks, and the body parsed as a file
  listing (\<open>None\<close> when it is no JSON).
\<close>

record http_response =
  status_code :: nat
  body_chunks :: "bytes list"
  stream_fails :: bool
  json :: "file_entry list option"

text \<open>
  The libraries and the remote services are parameters: \<open>requests_get\<close> answers a URL
  (\<open>None\<close>: the request raised), \<open>gunzip\<close> decompresses the bytes of a gzip file,
  \<open>decode_locale\<close> decodes bytes in the encoding of the locale (what a file opened in
  text mode with no encoding given does), \<open>pd_open_text\<close> is the text pandas reads
  from a file given by path (its name and bytes), \<open>pd_parse_csv\<close> is the
  delimited-text parser on a text and a separator, \<open>pd_read_excel\<close> the workbook
  parser.
\<close>

record env =
  requests_get :: "string \<Rightarrow> http_response option"
  gunzip :: "bytes \<Rightarrow> error + bytes"
  decode_locale :: "bytes \<Rightarrow> error + string"
  pd_open_text :: "string \<Rightarrow> bytes \<Rightarrow> error + string"
  pd_parse_csv :: "string \<Rightarrow> char \<Rightarrow> error + dataframe"
  pd_read_excel :: "bytes \<Rightarrow> error + dataframe"

definition CR :: char where
  "CR = CHR 0x0D"

definition LF :: char where
  "LF = CHR 0x0A"

definition TAB :: char where
  "TAB = CHR 0x09"

definition COMMA :: char where
  "COMMA = CHR '',''"

subsection \<open>Paths and files\<close>

text \<open>
  \<^verbatim>\<open>filepath.name\<close>. A name made by \<^verbatim>\<open>tempfile.mktemp()\<close> is \<^verbatim>\<open>tmp\<close> followed by
  letters, digits and underscores: it has no dot.
\<close>

fun path_name :: "path \<Rightarrow> string" where
  "path_name (InCache filename) = filename"
| "path_name (Temp k) = ''tmp'' @ replicate k (CHR ''_'')"

fun file_content :: "world \<Rightarrow> path \<Rightarrow> bytes option" where
  "file_content w (InCache filename) =
     (case cache_dir w of None \<Rightarrow> None | Some entries \<Rightarrow> entries filename)"
| "file_content w (Temp k) = temp_files w k"

definition path_exists :: "world \<Rightarrow> path \<Rightarrow> bool" where
  "path_exists w p \<longleftrightarrow> file_content w p \<noteq> None"

definition cache_dir_exists :: "world \<Rightarrow> bool" where
  "cache_dir_exists w \<longleftrightarrow> cache_dir w \<noteq> None"

text \<open>\<^verbatim>\<open>open(path, 'wb')\<close> and then writing \<open>data\<close>: the directory must exist.\<close>

fun write_file :: "world \<Rightarrow> path \<Rightarrow> bytes \<Rightarrow> error + world" where
  "write_file w (InCache filename) data =
     (case cache_dir w of
        None \<Rightarrow> Inl FileNotFoundError
      | Some entries \<Rightarrow> Inr (w\<lparr>cache_dir := Some (entries(filename \<mapsto> data))\<rparr>))"
| "write_file w (Temp k) data = Inr (w\<lparr>temp_files := (temp_files w)(k \<mapsto> data)\<rparr>)"

fun unlink :: "world \<Rightarrow> path \<Rightarrow> world" where
  "unlink w (InCache filename) =
     (case cache_dir w of
        None \<Rightarrow> w
      | Some entries \<Rightarrow> w\<lparr>cache_dir := Some (entries(filename := None))\<rparr>)"
| "unlink w (Temp k) = w\<lparr>temp_files := (temp_files w)(k := None)\<rparr>"

definition mktemp :: "world \<Rightarrow> path \<times> world" where
  "mktemp w = (Temp (temp_next w), w\<lparr>temp_next := Suc (temp_next w)\<rparr>)"

definition mkdir_exist_ok :: "world \<Rightarrow> world" where
  "mkdir_exist_ok w =
     (case cache_dir w of None \<Rightarrow> w\<lparr>cache_dir := Some Map.empty\<rparr> | Some entries \<Rightarrow> w)"

definition rmtree :: "world \<Rightarrow> world" where
  "rmtree w = w\<lparr>cache_dir := None\<rparr>"

definition log_request :: "string \<Rightarrow> world \<Rightarrow> world" where
  "log_request url w = w\<lparr>requests_log := requests_log w @ [url]\<rparr>"

text \<open>\<^verbatim>\<open>response.raise_for_status()\<close> raises for the statuses 400 to 599.\<close>

definition raise_for_status :: "http_response \<Rightarrow> bool" where
  "raise_for_status response \<longleftrightarrow> 400 \<le> status_code response \<and> status_code response < 600"

section \<open>The explorer\<close>

record explorer =
  metadata :: dataframe
  current_data :: "dataframe option"
  verbose :: bool
  use_cache :: bool

definition catalog_url :: string where
  "catalog_url = ''https://docs.google.com/spreadsheets/d/1M6hc3vmk1bNchMvEwXsIyyO5iq3mAzP877HTXzhzg38/export?format=csv''"

definition api_url :: "string \<Rightarrow> string" where
  "api_url identifier =
     ''https://www.ebi.ac.uk/pride/ws/archive/v2/file/byProject?accession='' @ identifier"

text \<open>
  \<^verbatim>\<open>_load_metadata\<close>: the catalogue is fetched whole; a failed request, a failed
  transfer or an error status becomes \<open>ConnectionError\<close>. Printing (\<^verbatim>\<open>_log\<close>) changes
  nothing that is modelled and is left out everywhere.
\<close>

definition load_metadata :: "env \<Rightarrow> world \<Rightarrow> (error + dataframe) \<times> world" where
  "load_metadata E w =
     (let w = log_request catalog_url w in
      case requests_get E catalog_url of
        None \<Rightarrow> (Inl ConnectionError, w)
      | Some response \<Rightarrow>
          if stream_fails response \<or> raise_for_status response then (Inl ConnectionError, w)
          else (pd_parse_csv E (concat (body_chunks response)) COMMA, w))"

text \<open>\<^verbatim>\<open>__init__\<close>: the cache directory is made only when caching is on.\<close>

definition init :: "env \<Rightarrow> bool \<Rightarrow> bool \<Rightarrow> world \<Rightarrow> (error + explorer) \<times> world" where
  "init E verbose_flag use_cache_flag w =
     (let w = (if use_cache_flag then mkdir_exist_ok w else w) in
      case load_metadata E w of
        (Inl e, w) \<Rightarrow> (Inl e, w)
      | (Inr df, w) \<Rightarrow>
          (Inr \<lparr>metadata = df, current_data = None,
                verbose = verbose_flag, use_cache = use_cache_flag\<rparr>, w))"

subsection \<open>\<^verbatim>\<open>get_info\<close>\<close>

text \<open>
  \<^verbatim>\<open>df[label]\<close> raises \<open>KeyError\<close> for a label that is no column; \<^verbatim>\<open>==\<close> against a
  column is never true at a missing value.
\<close>

fun index_of :: "string \<Rightarrow> string list \<Rightarrow> nat option" where
  "index_of label [] = None"
| "index_of label (c # cs) =
     (if c = label then Some 0 else map_option Suc (index_of label cs))"

definition cell_eq :: "cell \<Rightarrow> cell \<Rightarrow> bool" where
  "cell_eq a b \<longleftrightarrow> a \<noteq> NaN \<and> b \<noteq> NaN \<and> a = b"

text \<open>The cell of a row at a column position; a row too short has a missing value there.\<close>

definition cell_at :: "cell list \<Rightarrow> nat \<Rightarrow> cell" where
  "cell_at row k = (if k < length row then row ! k else NaN)"

definition dropna :: "(string \<times> cell) list \<Rightarrow> (string \<times> cell) list" where
  "dropna items = filter (\<lambda>(label, v). v \<noteq> NaN) items"

text \<open>\<^verbatim>\<open>to_dict\<close>: the items are stored in order, a later one replacing an earlier one.\<close>

definition to_dict :: "(string \<times> cell) list \<Rightarrow> (string \<rightharpoonup> cell)" where
  "to_dict items = foldl (\<lambda>m (label, v). m(label \<mapsto> v)) Map.empty items"

definition get_info :: "explorer \<Rightarrow> cell \<Rightarrow> error + (string \<rightharpoonup> cell)" where
  "get_info self identifier =
     (case index_of ''Identifier'' (columns (metadata self)) of
        None \<Rightarrow> Inl KeyError
      | Some k \<Rightarrow>
          (let row = filter (\<lambda>r. cell_eq (cell_at r k) identifier) (rows (metadata self)) in
           case row of
             [] \<Rightarrow> Inl ValueError
           | r # _ \<Rightarrow> Inr (to_dict (dropna (zip (columns (metadata self)) r)))))"

subsection \<open>\<^verbatim>\<open>_download_file\<close>\<close>

text \<open>
  A cached entry is returned without a request. Otherwise the request is made, the
  destination is opened (and so created or emptied), and the chunks are written one
  after the other; a transfer that breaks leaves what was written.
\<close>

definition download_file ::
    "env \<Rightarrow> explorer \<Rightarrow> world \<Rightarrow> string \<Rightarrow> string \<Rightarrow> (error + path) \<times> world" where
  "download_file E self w url filename =
     (let cache_path = InCache filename in
      if use_cache self \<and> path_exists w cache_path then (Inr cache_path, w)
      else
        (let w = log_request url w in
         case requests_get E url of
           None \<Rightarrow> (Inl RequestException, w)
         | Some response \<Rightarrow>
             if raise_for_status response then (Inl RequestException, w)
             else
               (let (save_path, w) = (if use_cache self then (cache_path, w) else mktemp w) in
                case write_file w save_path (concat (body_chunks response)) of
                  Inl e \<Rightarrow> (Inl e, w)
                | Inr w \<Rightarrow>
                    if stream_fails response then (Inl RequestException, w)
                    else (Inr save_path, w))))"

subsection \<open>\<^verbatim>\<open>_read_file\<close>\<close>

text \<open>\<^verbatim>\<open>pd.read_csv(io.StringIO(content), sep=...)\<close> and \<^verbatim>\<open>pd.read_csv(filepath, sep=...)\<close>.\<close>

definition read_csv_buffer :: "env \<Rightarrow> string \<Rightarrow> char \<Rightarrow> error + dataframe" where
  "read_csv_buffer E content sep = pd_parse_csv E content sep"

definition read_csv_path :: "env \<Rightarrow> world \<Rightarrow> path \<Rightarrow> char \<Rightarrow> error + dataframe" where
  "read_csv_path E w filepath sep =
     (case file_content w filepath of
        None \<Rightarrow> Inl FileNotFoundError
      | Some raw \<Rightarrow>
          (case pd_open_text E (path_name filepath) raw of
             Inl e \<Rightarrow> Inl e
           | Inr content \<Rightarrow> pd_parse_csv E content sep))"

definition read_excel_path :: "env \<Rightarrow> world \<Rightarrow> path \<Rightarrow> error + dataframe" where
  "read_excel_path E w filepath =
     (case file_content w filepath of
        None \<Rightarrow> Inl FileNotFoundError
      | Some raw \<Rightarrow> pd_read_excel E raw)"

text \<open>
  \<^verbatim>\<open>gzip.open(filepath, 'rt').read()\<close>: the file is decompressed, decoded in the
  encoding of the locale and, as for every file read in text mode with the default
  \<^verbatim>\<open>newline\<close>, each \<^verbatim>\<open>\r\n\<close> and each remaining \<^verbatim>\<open>\r\<close> is turned into \<^verbatim>\<open>\n\<close>.
\<close>

fun universal_newlines :: "string \<Rightarrow> string" where
  "universal_newlines [] = []"
| "universal_newlines (c # cs) =
     (if c = CR then
        (case cs of
           [] \<Rightarrow> [LF]
         | d # ds \<Rightarrow>
             if d = LF then LF # universal_newlines ds
             else LF # universal_newlines (d # ds))
      else c # universal_newlines cs)"

definition gzip_read_text :: "env \<Rightarrow> bytes \<Rightarrow> error + string" where
  "gzip_read_text E raw =
     (case gunzip E raw of
        Inl e \<Rightarrow> Inl e
      | Inr data \<Rightarrow>
          (case decode_locale E data of
             Inl e \<Rightarrow> Inl e
           | Inr text \<Rightarrow> Inr (universal_newlines text)))"

definition gzip_open_read :: "env \<Rightarrow> world \<Rightarrow> path \<Rightarrow> error + string" where
  "gzip_open_read E w filepath =
     (case file_content w filepath of
        None \<Rightarrow> Inl FileNotFoundError
      | Some raw \<Rightarrow> gzip_read_text E raw)"

text \<open>The second chain of tests, on the name as it is after the first.\<close>

definition read_by_suffix :: "env \<Rightarrow> world \<Rightarrow> path \<Rightarrow> string \<Rightarrow> error + dataframe" where
  "read_by_suffix E w filepath name =
     (if endswith_any name [''.txt'', ''.tsv''] then read_csv_path E w filepath TAB
      else if endswith name ''.csv'' then read_csv_path E w filepath COMMA
      else if endswith_any name [''.xlsx'', ''.xls''] then read_excel_path E w filepath
      else read_csv_path E w filepath TAB)"

definition read_file :: "env \<Rightarrow> world \<Rightarrow> path \<Rightarrow> error + dataframe" where
  "read_file E w filepath =
     (let name = lower (path_name filepath) in
      if endswith name ''.gz'' then
        (case gzip_open_read E w filepath of
           Inl e \<Rightarrow> Inl e
         | Inr content \<Rightarrow>
             (let name = take (length name - 3) name in
              if endswith_any name [''.txt'', ''.tsv''] then read_csv_buffer E content TAB
              else if endswith name ''.csv'' then read_csv_buffer E content COMMA
              else read_by_suffix E w filepath name))
      else read_by_suffix E w filepath name)"

subsection \<open>\<^verbatim>\<open>load\<close>\<close>

text \<open>
  The listing is requested, \<open>select\<close> (the lines of \<^verbatim>\<open>load\<close> from the suffix filter
  to the choice of \<^verbatim>\<open>best\<close>) picks the file, which is downloaded and read; without
  caching the temporary file is removed afterwards.
\<close>

definition load ::
    "env \<Rightarrow> explorer \<Rightarrow> world \<Rightarrow> string \<Rightarrow> string option
       \<Rightarrow> (error + dataframe) \<times> explorer \<times> world" where
  "load E self w identifier file_pattern =
     (let w = log_request (api_url identifier) w in
      case requests_get E (api_url identifier) of
        None \<Rightarrow> (Inl RequestException, self, w)
      | Some response \<Rightarrow>
          if stream_fails response then (Inl RequestException, self, w)
          else if status_code response \<noteq> 200 then (Inl ValueError, self, w)
          else
            (case json response of
               None \<Rightarrow> (Inl RequestException, self, w)
             | Some files \<Rightarrow>
                 (case select files file_pattern of
                    Inl e \<Rightarrow> (Inl e, self, w)
                  | Inr best \<Rightarrow>
                      (case download_file E self w (downloadLink best) (fileName best) of
                         (Inl e, w) \<Rightarrow> (Inl e, self, w)
                       | (Inr filepath, w) \<Rightarrow>
                           (case read_file E w filepath of
                              Inl e \<Rightarrow> (Inl e, self, w)
                            | Inr data \<Rightarrow>
                                (let w = (if \<not> use_cache self \<and> path_exists w filepath
                                          then unlink w filepath else w)
                                 in (Inr data, self\<lparr>current_data := Some data\<rparr>, w)))))))"

subsection \<open>\<^verbatim>\<open>clear_cache\<close>\<close>

definition clear_cache :: "world \<Rightarrow> world" where
  "clear_cache w = (if cache_dir_exists w then mkdir_exist_ok (rmtree w) else w)"

section \<open>Sample inputs\<close>

text \<open>Concrete listings, used to run the theorems below on actual inputs.\<close>

definition protein_small :: file_entry where
  "protein_small = \<lparr>fileName = ''Protein_Groups.TSV'', fileType = ''SEARCH'',
     fileSizeBytes = 60000, downloadLink = ''ftp://host/a''\<rparr>"

definition maxquant_big :: file_entry where
  "maxquant_big = \<lparr>fileName = ''maxquant_out.txt'', fileType = ''SEARCH'',
     fileSizeBytes = 900000, downloadLink = ''ftp://host/b''\<rparr>"

definition readme_small :: file_entry where
  "readme_small = \<lparr>fileName = ''readme.txt'', fileType = ''OTHER'',
     fileSizeBytes = 500, downloadLink = ''ftp://host/r''\<rparr>"

definition raw_zip :: file_entry where
  "raw_zip = \<lparr>fileName = ''raw.zip'', fileType = ''RAW'',
     fileSizeBytes = 900000, downloadLink = ''ftp://host/z''\<rparr>"

definition samples_a :: file_entry where
  "samples_a = \<lparr>fileName = ''samples_a.csv'', fileType = ''OTHER'',
     fileSizeBytes = 70000, downloadLink = ''ftp://host/sa''\<rparr>"

definition samples_b :: file_entry where
  "samples_b = \<lparr>fileName = ''samples_b.csv.gz'', fileType = ''OTHER'',
     fileSizeBytes = 80000, downloadLink = ''ftp://host/sb''\<rparr>"

definition samples_c :: file_entry where
  "samples_c = \<lparr>fileName = ''samples_c.xlsx'', fileType = ''OTHER'',
     fileSizeBytes = 80000, downloadLink = ''ftp://host/sc''\<rparr>"

text \<open>
  A stand-in for the libraries and the remote services. The parser cuts a text into
  records and fields the way the pandas tokenizer does: a field ends at the separator,
  a record at \<^verbatim>\<open>\n\<close>, \<^verbatim>\<open>\r\<close> or \<^verbatim>\<open>\r\n\<close>, and inside double quotes every character,
  line ends included, belongs to the field; the first record is the header. The
  decompressor strips a marker, the decoders keep the bytes, and the remote serves one
  catalogue, two listings and one file.
\<close>

definition QUOTE :: char where
  "QUOTE = CHR 0x22"

fun tokenize :: "char \<Rightarrow> bool \<Rightarrow> string \<Rightarrow> string list \<Rightarrow> string \<Rightarrow> string list list" where
  "tokenize sep quoted field record [] =
     (if field = [] \<and> record = [] then [] else [rev (rev field # record)])"
| "tokenize sep quoted field record (c # cs) =
     (if quoted then
        (if c = QUOTE then tokenize sep False field record cs
         else tokenize sep True (c # field) record cs)
      else if c = QUOTE then tokenize sep True field record cs
      else if c = sep then tokenize sep False [] (rev field # record) cs
      else if c = LF then rev (rev field # record) # tokenize sep False [] [] cs
      else if c = CR then
        (case cs of
           [] \<Rightarrow> [rev (rev field # record)]
         | d # ds \<Rightarrow>
             if d = LF then rev (rev field # record) # tokenize sep False [] [] ds
             else rev (rev field # record) # tokenize sep False [] [] (d # ds))
      else tokenize sep False (c # field) record cs)"

definition toy_parse_csv :: "string \<Rightarrow> char \<Rightarrow> error + dataframe" where
  "toy_parse_csv content sep =
     (case tokenize sep False [] [] content of
        [] \<Rightarrow> Inl LibraryError
      | header # records \<Rightarrow> Inr \<lparr>columns = header, rows = map (map Text) records\<rparr>)"

definition toy_gunzip :: "bytes \<Rightarrow> error + bytes" where
  "toy_gunzip raw = (if startswith raw ''GZ:'' then Inr (drop 3 raw) else Inl LibraryError)"

definition sample_response :: "string \<Rightarrow> http_response option" where
  "sample_response url =
     (if url = api_url ''PXD000001'' then
        Some \<lparr>status_code = 200, body_chunks = [], stream_fails = False,
              json = Some [readme_small, raw_zip]\<rparr>
      else if url = api_url ''PXD000002'' then
        Some \<lparr>status_code = 404, body_chunks = [], stream_fails = False, json = None\<rparr>
      else if url = catalog_url then
        Some \<lparr>status_code = 200, body_chunks = [''Identifier,Title'', [LF] @ ''PXD000001,Liver''],
              stream_fails = False, json = None\<rparr>
      else if url = ''ftp://host/a'' then
        Some \<lparr>status_code = 200, body_chunks = [''id'' @ [TAB] @ ''x'', [LF] @ ''p1'' @ [TAB] @ ''7''],
              stream_fails = False, json = None\<rparr>
      else None)"

definition sample_env :: env where
  "sample_env = \<lparr>requests_get = sample_response, gunzip = toy_gunzip,
     decode_locale = (\<lambda>raw. Inr raw),
     pd_open_text = (\<lambda>name raw. Inr raw), pd_parse_csv = toy_parse_csv,
     pd_read_excel = (\<lambda>raw. Inl LibraryError)\<rparr>"

definition offline_env :: env where
  "offline_env = sample_env\<lparr>requests_get := (\<lambda>url. None)\<rparr>"

definition fresh_world :: world where
  "fresh_world = \<lparr>cache_dir = None, temp_files = Map.empty, temp_next = 0, requests_log = []\<rparr>"

definition sample_text :: string where
  "sample_text = ''id'' @ [TAB] @ ''x'' @ [LF] @ ''p1'' @ [TAB] @ ''7''"

definition cached_world :: world where
  "cached_world = fresh_world\<lparr>cache_dir :=
     Some [''pg.tsv'' \<mapsto> sample_text, ''PG.TSV.GZ'' \<mapsto> ''GZ:'' @ sample_text,
           ''results.dat'' \<mapsto> sample_text]\<rparr>"



definition sample_catalog :: dataframe where
  "sample_catalog = \<lparr>columns = [''Identifier'', ''Title'', ''Organism'', ''TOTAL SAMPLES''],
     rows = [[Text ''PXD000001'', Text ''Liver atlas'', NaN, Number 12],
             [Text ''PXD000002'', NaN, Text ''Mus musculus'', NaN],
             [Text ''PXD000002'', Text ''Duplicate'', NaN, Number 3]]\<rparr>"

definition caching_explorer :: explorer where
  "caching_explorer = \<lparr>metadata = sample_catalog, current_data = None,
     verbose = True, use_cache = True\<rparr>"

section \<open>Strings: what the tests mean\<close>

lemma startswith_iff: "startswith s p \<longleftrightarrow> (\<exists>t. s = p @ t)"
  by (induction s p rule: startswith.induct) auto


lemma contains_iff: "contains s sub \<longleftrightarrow> (\<exists>a b. s = a @ sub @ b)"
proof (induction s)
  case Nil
  then show ?case by auto
next
  case (Cons c cs)
  show ?case
  proof
    assume "contains (c # cs) sub"
    then consider "startswith (c # cs) sub" | "contains cs sub" by auto
    then show "\<exists>a b. c # cs = a @ sub @ b"
    proof cases
      case 1
      then obtain t where "c # cs = sub @ t" by (auto simp: startswith_iff)
      then have "c # cs = [] @ sub @ t" by simp
      then show ?thesis by blast
    next
      case 2
      then obtain a b where "cs = a @ sub @ b" using Cons.IH by blast
      then have "c # cs = (c # a) @ sub @ b" by simp
      then show ?thesis by blast
    qed
  next
    assume "\<exists>a b. c # cs = a @ sub @ b"
    then obtain a b where ab: "c # cs = a @ sub @ b" by blast
    show "contains (c # cs) sub"
    proof (cases a)
      case Nil
      with ab have "startswith (c # cs) sub" by (auto simp: startswith_iff)
      then show ?thesis by simp
    next
      case (Cons x a')
      with ab have "cs = a' @ sub @ b" by simp
      then have "contains cs sub" using Cons.IH by blast
      then show ?thesis by simp
    qed
  qed
qed

section \<open>Properties of the selection\<close>

lemma first_with_keyword_Some:
  "first_with_keyword kw fs = Some f \<Longrightarrow> f \<in> set fs \<and> contains (lower (fileName f)) kw"
  by (induction fs) (auto split: if_splits)

lemma first_with_keyword_None:
  "first_with_keyword kw fs = None \<longleftrightarrow> (\<forall>f\<in>set fs. \<not> contains (lower (fileName f)) kw)"
  by (induction fs) auto

lemma keyword_pass_Some:
  "keyword_pass kws fs = Some f \<Longrightarrow> f \<in> set fs"
  by (induction kws) (auto split: option.splits dest: first_with_keyword_Some)

lemma keyword_pass_None:
  "keyword_pass kws fs = None \<longleftrightarrow>
     (\<forall>kw\<in>set kws. \<forall>f\<in>set fs. \<not> contains (lower (fileName f)) kw)"
proof (induction kws)
  case Nil
  then show ?case by simp
next
  case (Cons k kws)
  show ?case
  proof (cases "first_with_keyword k fs")
    case None
    then have "\<forall>f\<in>set fs. \<not> contains (lower (fileName f)) k"
      by (simp add: first_with_keyword_None)
    then show ?thesis using None Cons.IH by simp
  next
    case (Some x)
    then have "x \<in> set fs \<and> contains (lower (fileName x)) k"
      by (rule first_with_keyword_Some)
    then show ?thesis using Some by auto
  qed
qed

lemma keyword_pass_only_match:
  assumes "a \<in> set fs" and "kw \<in> set kws" and "contains (lower (fileName a)) kw"
    and "\<forall>b\<in>set fs. b \<noteq> a \<longrightarrow> (\<forall>k\<in>set kws. \<not> contains (lower (fileName b)) k)"
  shows "keyword_pass (kws @ rest) fs = Some a"
  using assms
proof (induction kws)
  case Nil
  then show ?case by simp
next
  case (Cons k kws)
  show ?case
  proof (cases "first_with_keyword k fs")
    case None
    then have "\<not> contains (lower (fileName a)) k"
      using Cons.prems(1) by (simp add: first_with_keyword_None)
    then have "kw \<in> set kws" using Cons.prems(2,3) by auto
    then have "keyword_pass (kws @ rest) fs = Some a"
      using Cons.IH Cons.prems by simp
    then show ?thesis using None by simp
  next
    case (Some x)
    then have "x \<in> set fs" and "contains (lower (fileName x)) k"
      using first_with_keyword_Some by blast+
    then have "x = a" using Cons.prems(4) by auto
    then show ?thesis using Some by simp
  qed
qed

lemma max_from_split:
  "\<exists>pre post. b # fs = pre @ max_from b fs # post
     \<and> (\<forall>f\<in>set pre. fileSizeBytes f < fileSizeBytes (max_from b fs))
     \<and> (\<forall>f\<in>set post. fileSizeBytes f \<le> fileSizeBytes (max_from b fs))"
proof (induction fs arbitrary: b)
  case Nil
  have "[b] = [] @ max_from b [] # []" by simp
  then show ?case by fastforce
next
  case (Cons f fs)
  let ?b' = "if fileSizeBytes f > fileSizeBytes b then f else b"
  let ?m = "max_from ?b' fs"
  have m: "max_from b (f # fs) = ?m" by simp
  from Cons.IH [of ?b'] obtain pre post where
    sp: "?b' # fs = pre @ ?m # post"
    and lt: "\<forall>g\<in>set pre. fileSizeBytes g < fileSizeBytes ?m"
    and le: "\<forall>g\<in>set post. fileSizeBytes g \<le> fileSizeBytes ?m"
    by blast
  have b'le: "fileSizeBytes ?b' \<le> fileSizeBytes ?m"
  proof -
    have "?b' \<in> set (pre @ ?m # post)" using sp by (metis list.set_intros(1))
    then show ?thesis using lt le by (auto simp: less_imp_le)
  qed
  show ?case
  proof (cases "fileSizeBytes f > fileSizeBytes b")
    case True
    then have "b # f # fs = (b # pre) @ ?m # post" using sp by simp
    moreover have "\<forall>g\<in>set (b # pre). fileSizeBytes g < fileSizeBytes ?m"
      using True b'le lt by auto
    ultimately show ?thesis unfolding m using le by blast
  next
    case False
    show ?thesis
    proof (cases pre)
      case Nil
      then have "b # f # fs = [] @ ?m # (f # fs)" and "?m = b" using sp False by auto
      moreover have "\<forall>g\<in>set (f # fs). fileSizeBytes g \<le> fileSizeBytes ?m"
        using False sp Nil le b'le by auto
      ultimately show ?thesis unfolding m by (metis empty_iff list.set(1))
    next
      case (Cons p pre')
      then have "b # f # fs = (b # f # pre') @ ?m # post" and "p = b"
        using sp False by auto
      moreover have "\<forall>g\<in>set (b # f # pre'). fileSizeBytes g < fileSizeBytes ?m"
        using False lt Cons \<open>p = b\<close> by auto
      ultimately show ?thesis unfolding m using le by blast
    qed
  qed
qed

lemma pattern_narrow_subset: "set (pattern_narrow pat cs) \<subseteq> set cs"
  by (auto simp: pattern_narrow_def Let_def split: option.splits)

lemma pattern_narrow_nonempty: "cs \<noteq> [] \<Longrightarrow> pattern_narrow pat cs \<noteq> []"
  by (auto simp: pattern_narrow_def Let_def split: option.splits)

lemma select_eq:
  "candidates_of files \<noteq> [] \<Longrightarrow>
   select files pat =
     (case keyword_pass priority_keywords (pattern_narrow pat (candidates_of files)) of
        Some best \<Rightarrow> Inr best
      | None \<Rightarrow> max_by_size (pattern_narrow pat (candidates_of files)))"
  by (simp add: select_def Let_def)

section \<open>The claims about the selection\<close>

text \<open>
  C1 (keyword precedence). Take the candidates as they stand before the keyword pass
  (after the suffix and size filter and the narrowing by the pattern). If one of them,
  \<open>a\<close>, has the keyword at position \<open>i\<close> of the priority list in its lower-cased name, and
  every other candidate has none of the keywords up to position \<open>i\<close> in its name (it has
  only later keywords, or none), then \<open>a\<close> is selected, wherever it stands in the listing
  and whatever the sizes are.
\<close>

theorem keyword_precedence:
  assumes "a \<in> set (pattern_narrow pat (candidates_of files))"
    and "i < length priority_keywords"
    and "contains (lower (fileName a)) (priority_keywords ! i)"
    and "\<forall>b\<in>set (pattern_narrow pat (candidates_of files)). b \<noteq> a \<longrightarrow>
           (\<forall>kw\<in>set (take (Suc i) priority_keywords). \<not> contains (lower (fileName b)) kw)"
  shows "select files pat = Inr a"
proof -
  let ?pool = "pattern_narrow pat (candidates_of files)"
  have ne: "candidates_of files \<noteq> []"
    using assms(1) pattern_narrow_subset by fastforce
  have "priority_keywords ! i \<in> set (take (Suc i) priority_keywords)"
    using assms(2) by (simp add: take_Suc_conv_app_nth)
  then have "keyword_pass (take (Suc i) priority_keywords @ drop (Suc i) priority_keywords) ?pool
               = Some a"
    using assms(1,3,4) by (intro keyword_pass_only_match)
  then have "keyword_pass priority_keywords ?pool = Some a" by simp
  then show ?thesis using ne by (simp add: select_eq)
qed

text \<open>
  A small file with the first keyword against a large file with the seventh, in both
  listing orders.
\<close>

theorem keyword_precedence_witness:
  "select [maxquant_big, protein_small] None = Inr protein_small
   \<and> select [protein_small, maxquant_big] None = Inr protein_small"
proof -
  have k: "(0::nat) < length priority_keywords" by code_simp
  have "protein_small \<in> set (pattern_narrow None (candidates_of [maxquant_big, protein_small]))"
    by code_simp
  moreover have "contains (lower (fileName protein_small)) (priority_keywords ! 0)"
    by code_simp
  moreover have "\<forall>b\<in>set (pattern_narrow None (candidates_of [maxquant_big, protein_small])).
      b \<noteq> protein_small \<longrightarrow>
      (\<forall>kw\<in>set (take (Suc 0) priority_keywords). \<not> contains (lower (fileName b)) kw)"
    by code_simp
  ultimately have 1: "select [maxquant_big, protein_small] None = Inr protein_small"
    using k keyword_precedence [of protein_small None "[maxquant_big, protein_small]" 0]
    by blast
  have "protein_small \<in> set (pattern_narrow None (candidates_of [protein_small, maxquant_big]))"
    by code_simp
  moreover have "contains (lower (fileName protein_small)) (priority_keywords ! 0)"
    by code_simp
  moreover have "\<forall>b\<in>set (pattern_narrow None (candidates_of [protein_small, maxquant_big])).
      b \<noteq> protein_small \<longrightarrow>
      (\<forall>kw\<in>set (take (Suc 0) priority_keywords). \<not> contains (lower (fileName b)) kw)"
    by code_simp
  ultimately have 2: "select [protein_small, maxquant_big] None = Inr protein_small"
    using k keyword_precedence [of protein_small None "[protein_small, maxquant_big]" 0]
    by blast
  show ?thesis using 1 2 by simp
qed

text \<open>
  C2 (the filter is sound). If the listing has at least one file whose lower-cased name
  ends with one of \<open>table_exts\<close> and whose size is above 50000, then the selection
  succeeds, whatever the pattern is, and the file it returns is a file of the listing
  with such a suffix and a size above 50000.
\<close>

theorem select_returns_eligible:
  assumes "g \<in> set files"
    and "endswith_any (lower (fileName g)) table_exts"
    and "fileSizeBytes g > 50000"
  shows "\<exists>f. select files pat = Inr f \<and> f \<in> set files
           \<and> endswith_any (lower (fileName f)) table_exts \<and> fileSizeBytes f > 50000"
proof -
  let ?pool = "pattern_narrow pat (candidates_of files)"
  have "g \<in> set (candidates_of files)"
    using assms by (simp add: candidates_of_def is_candidate_def)
  then have ne: "candidates_of files \<noteq> []" by auto
  then have pne: "?pool \<noteq> []" by (rule pattern_narrow_nonempty)
  have sub: "set ?pool \<subseteq> set (candidates_of files)" by (rule pattern_narrow_subset)
  have "\<exists>f. select files pat = Inr f \<and> f \<in> set ?pool"
  proof (cases "keyword_pass priority_keywords ?pool")
    case None
    obtain c cs where pool: "?pool = c # cs" using pne by (cases ?pool) auto
    obtain pre post where "c # cs = pre @ max_from c cs # post"
      using max_from_split by blast
    then have "max_from c cs \<in> set ?pool" using pool by simp
    moreover have "select files pat = Inr (max_from c cs)"
      using ne None pool by (simp add: select_eq max_by_size_def)
    ultimately show ?thesis by blast
  next
    case (Some best)
    then have "best \<in> set ?pool" by (rule keyword_pass_Some)
    moreover have "select files pat = Inr best" using ne Some by (simp add: select_eq)
    ultimately show ?thesis by blast
  qed
  then obtain f where f: "select files pat = Inr f" "f \<in> set ?pool" by blast
  then have "f \<in> set (candidates_of files)" using sub by blast
  then have "f \<in> set files \<and> is_candidate f" by (simp add: candidates_of_def)
  then show ?thesis using f(1) by (auto simp: is_candidate_def)
qed

text \<open>A listing with a small text file, an archive and one eligible table.\<close>

theorem select_returns_eligible_witness:
  "\<exists>f. select [readme_small, protein_small, raw_zip] (Some ''quant'') = Inr f
       \<and> f \<in> set [readme_small, protein_small, raw_zip]
       \<and> endswith_any (lower (fileName f)) table_exts \<and> fileSizeBytes f > 50000"
proof -
  have "protein_small \<in> set [readme_small, protein_small, raw_zip]" by simp
  moreover have "endswith_any (lower (fileName protein_small)) table_exts" by code_simp
  moreover have "fileSizeBytes protein_small > 50000" by code_simp
  ultimately show ?thesis by (rule select_returns_eligible)
qed

text \<open>
  C3 (a pattern that misses). A non-empty pattern that, lower-cased, occurs in the
  lower-cased name of no candidate gives the same result as no pattern.
\<close>

theorem pattern_miss_fallback:
  assumes "p \<noteq> []"
    and "\<forall>f\<in>set (candidates_of files). \<not> contains (lower (fileName f)) (lower p)"
  shows "select files (Some p) = select files None"
proof -
  have "filter (\<lambda>f. contains (lower (fileName f)) (lower p)) (candidates_of files) = []"
    using assms(2) by (simp add: filter_empty_conv)
  then have "pattern_narrow (Some p) (candidates_of files)
               = pattern_narrow None (candidates_of files)"
    using assms(1) by (simp add: pattern_narrow_def)
  then show ?thesis by (simp add: select_def Let_def)
qed

text \<open>The pattern matches only a file that is too small to be a candidate.\<close>

theorem pattern_miss_fallback_witness:
  "select [samples_a, maxquant_big, readme_small] (Some ''ReadMe'')
     = select [samples_a, maxquant_big, readme_small] None"
proof -
  have "''ReadMe'' \<noteq> []" by simp
  moreover have "\<forall>f\<in>set (candidates_of [samples_a, maxquant_big, readme_small]).
      \<not> contains (lower (fileName f)) (lower ''ReadMe'')"
    by code_simp
  ultimately show ?thesis by (rule pattern_miss_fallback)
qed

text \<open>
  C4 (the largest file as fallback). Let \<open>pool\<close> be the candidates as they stand before
  the keyword pass. If no name in \<open>pool\<close> has any priority keyword, the selected file is
  a member of \<open>pool\<close> (so a candidate of the listing) whose size no member exceeds, and
  every member listed before it is strictly smaller: it is the first of the largest.
\<close>

theorem fallback_to_largest:
  assumes "pool = pattern_narrow pat (candidates_of files)"
    and "pool \<noteq> []"
    and "\<forall>f\<in>set pool. \<forall>kw\<in>set priority_keywords. \<not> contains (lower (fileName f)) kw"
  shows "\<exists>i<length pool. select files pat = Inr (pool ! i)
           \<and> pool ! i \<in> set files \<and> is_candidate (pool ! i)
           \<and> (\<forall>f\<in>set pool. fileSizeBytes f \<le> fileSizeBytes (pool ! i))
           \<and> (\<forall>j<i. fileSizeBytes (pool ! j) < fileSizeBytes (pool ! i))"
proof -
  have ne: "candidates_of files \<noteq> []"
  proof
    assume "candidates_of files = []"
    then have "set pool \<subseteq> {}" using assms(1) pattern_narrow_subset [of pat "[]"] by simp
    then show False using assms(2) by simp
  qed
  have none: "keyword_pass priority_keywords pool = None"
    using assms(3) by (simp add: keyword_pass_None)
  obtain c cs where pool: "pool = c # cs" using assms(2) by (cases pool) auto
  let ?m = "max_from c cs"
  have sel: "select files pat = Inr ?m"
    using ne none pool assms(1) by (simp add: select_eq max_by_size_def)
  obtain pre post where sp: "pool = pre @ ?m # post"
    and lt: "\<forall>f\<in>set pre. fileSizeBytes f < fileSizeBytes ?m"
    and le: "\<forall>f\<in>set post. fileSizeBytes f \<le> fileSizeBytes ?m"
    using max_from_split [of c cs] pool by auto
  let ?i = "length pre"
  have i: "?i < length pool" using sp by simp
  have nth: "pool ! ?i = ?m" using sp by simp
  have "?m \<in> set pool" using sp by simp
  then have "?m \<in> set (candidates_of files)"
    using assms(1) pattern_narrow_subset by blast
  then have mem: "?m \<in> set files \<and> is_candidate ?m" by (simp add: candidates_of_def)
  have all: "\<forall>f\<in>set pool. fileSizeBytes f \<le> fileSizeBytes ?m"
  proof
    fix f assume "f \<in> set pool"
    then have "f \<in> set pre \<or> f = ?m \<or> f \<in> set post" using sp by (metis Un_iff set_ConsD set_append)
    then show "fileSizeBytes f \<le> fileSizeBytes ?m" using lt le by auto
  qed
  have before: "\<forall>j<?i. fileSizeBytes (pool ! j) < fileSizeBytes ?m"
  proof (intro allI impI)
    fix j assume "j < ?i"
    then have "pool ! j = pre ! j" and "pre ! j \<in> set pre"
      using sp by (simp_all add: nth_append)
    then show "fileSizeBytes (pool ! j) < fileSizeBytes ?m" using lt by simp
  qed
  show ?thesis using i sel nth mem all before by (intro exI [of _ ?i]) simp
qed

text \<open>Two candidates share the largest size; the earlier one is returned.\<close>

theorem fallback_to_largest_witness:
  "\<exists>i<length [samples_a, samples_b, samples_c].
      select [readme_small, samples_a, samples_b, raw_zip, samples_c] None
        = Inr ([samples_a, samples_b, samples_c] ! i)
      \<and> [samples_a, samples_b, samples_c] ! i
          \<in> set [readme_small, samples_a, samples_b, raw_zip, samples_c]
      \<and> is_candidate ([samples_a, samples_b, samples_c] ! i)
      \<and> (\<forall>f\<in>set [samples_a, samples_b, samples_c].
            fileSizeBytes f \<le> fileSizeBytes ([samples_a, samples_b, samples_c] ! i))
      \<and> (\<forall>j<i. fileSizeBytes ([samples_a, samples_b, samples_c] ! j)
                  < fileSizeBytes ([samples_a, samples_b, samples_c] ! i))"
proof -
  have "[samples_a, samples_b, samples_c]
          = pattern_narrow None (candidates_of [readme_small, samples_a, samples_b, raw_zip, samples_c])"
    by code_simp
  moreover have "[samples_a, samples_b, samples_c] \<noteq> []" by simp
  moreover have "\<forall>f\<in>set [samples_a, samples_b, samples_c].
      \<forall>kw\<in>set priority_keywords. \<not> contains (lower (fileName f)) kw"
    by code_simp
  ultimately show ?thesis by (rule fallback_to_largest)
qed

section \<open>The claims about \<^verbatim>\<open>get_info\<close>, \<^verbatim>\<open>load\<close> and \<^verbatim>\<open>clear_cache\<close>\<close>

lemma find_filter_Cons: "find P xs = Some r \<Longrightarrow> \<exists>rest. filter P xs = r # rest"
  by (induction xs) (auto split: if_splits)

lemma foldl_update_eq:
  "foldl (\<lambda>m (label, v). m(label \<mapsto> v)) m items = m ++ map_of (rev items)"
proof (induction items arbitrary: m)
  case Nil
  then show ?case by simp
next
  case (Cons x items)
  obtain l v where x: "x = (l, v)" by (cases x)
  have "foldl (\<lambda>m (label, v). m(label \<mapsto> v)) m (x # items)
          = foldl (\<lambda>m (label, v). m(label \<mapsto> v)) (m(l \<mapsto> v)) items"
    using x by simp
  also have "\<dots> = m(l \<mapsto> v) ++ map_of (rev items)"
    by (rule Cons.IH)
  also have "\<dots> = m ++ map_of (rev (x # items))"
    using x by (simp add: map_of_append map_add_assoc [symmetric] map_add_upd)
  finally show ?case .
qed

lemma to_dict_distinct:
  assumes "distinct (map fst items)"
  shows "to_dict items label = Some v \<longleftrightarrow> (label, v) \<in> set items"
proof -
  have "distinct (map fst (rev items))" using assms by (simp add: rev_map [symmetric])
  then have "map_of (rev items) label = Some v \<longleftrightarrow> (label, v) \<in> set (rev items)"
    by (rule map_of_eq_Some_iff)
  then show ?thesis by (simp add: to_dict_def foldl_update_eq)
qed

lemma dropna_distinct: "distinct (map fst items) \<Longrightarrow> distinct (map fst (dropna items))"
  by (simp add: dropna_def distinct_map_filter)

lemma set_dropna: "(label, v) \<in> set (dropna items) \<longleftrightarrow> (label, v) \<in> set items \<and> v \<noteq> NaN"
  by (auto simp: dropna_def)

text \<open>
  C10 (missing values are left out). Let the catalogue have distinct column labels,
  \<open>Identifier\<close> among them, and let \<open>r\<close> be the first row whose identifier equals the one
  asked for. Then \<^verbatim>\<open>get_info\<close> returns a dictionary that maps a label to a value exactly
  when that value is the cell of \<open>r\<close> in that column and is not missing: a column whose
  cell is missing is no key of the dictionary, and no key is mapped to \<open>NaN\<close>.
\<close>

theorem get_info_omits_missing:
  assumes "index_of ''Identifier'' (columns (metadata self)) = Some k"
    and "distinct (columns (metadata self))"
    and "find (\<lambda>r. cell_eq (cell_at r k) identifier) (rows (metadata self)) = Some r"
  shows "\<exists>info. get_info self identifier = Inr info
           \<and> (\<forall>label v. info label = Some v
                 \<longleftrightarrow> (label, v) \<in> set (zip (columns (metadata self)) r) \<and> v \<noteq> NaN)"
proof -
  let ?items = "zip (columns (metadata self)) r"
  obtain rest where
    "filter (\<lambda>r. cell_eq (cell_at r k) identifier) (rows (metadata self)) = r # rest"
    using find_filter_Cons [OF assms(3)] by blast
  then have g: "get_info self identifier = Inr (to_dict (dropna ?items))"
    using assms(1) by (simp add: get_info_def)
  have "distinct (map fst ?items)"
    using assms(2) by (simp add: map_fst_zip_take)
  then have "distinct (map fst (dropna ?items))" by (rule dropna_distinct)
  then have "\<forall>label v. to_dict (dropna ?items) label = Some v
                \<longleftrightarrow> (label, v) \<in> set ?items \<and> v \<noteq> NaN"
    by (simp add: to_dict_distinct set_dropna)
  then show ?thesis using g by blast
qed

text \<open>A row with two missing cells, and a later row with the same identifier.\<close>

theorem get_info_omits_missing_witness:
  "\<exists>info. get_info caching_explorer (Text ''PXD000002'') = Inr info
     \<and> (\<forall>label v. info label = Some v
           \<longleftrightarrow> (label, v) \<in> set (zip (columns (metadata caching_explorer))
                                    [Text ''PXD000002'', NaN, Text ''Mus musculus'', NaN])
               \<and> v \<noteq> NaN)"
proof -
  have "index_of ''Identifier'' (columns (metadata caching_explorer)) = Some 0"
    by code_simp
  moreover have "distinct (columns (metadata caching_explorer))"
    by code_simp
  moreover have "find (\<lambda>r. cell_eq (cell_at r 0) (Text ''PXD000002''))
                   (rows (metadata caching_explorer))
                 = Some [Text ''PXD000002'', NaN, Text ''Mus musculus'', NaN]"
    by code_simp
  ultimately show ?thesis by (rule get_info_omits_missing)
qed

text \<open>
  C5 as stated fails: the claim has \<^verbatim>\<open>load\<close> fail with the error of a project that is
  not found (\<open>ValueError\<close>, as in \<^verbatim>\<open>get_info\<close>) also when no file of the listing passes
  the filter. For a listing of a small text file and an archive, answered with status
  200, \<^verbatim>\<open>load\<close> fails with \<open>FileNotFoundError\<close>.
\<close>

theorem load_no_candidate_counterexample:
  "fst (load sample_env caching_explorer fresh_world ''PXD000001'' None) = Inl FileNotFoundError
   \<and> fst (load sample_env caching_explorer fresh_world ''PXD000001'' None) \<noteq> Inl ValueError"
  by code_simp

text \<open>
  C5, amended. When the listing request is answered, \<^verbatim>\<open>load\<close> fails with \<open>ValueError\<close>
  for every status other than 200 (not-found among them), and with
  \<open>FileNotFoundError\<close>, a different error, when the status is 200 and no file of the
  listing passes the suffix and size filter; this for every identifier and pattern.
\<close>

theorem load_error_kinds:
  assumes "requests_get E (api_url identifier) = Some response"
    and "\<not> stream_fails response"
  shows "(status_code response \<noteq> 200 \<longrightarrow>
            fst (load E self w identifier file_pattern) = Inl ValueError)
       \<and> (status_code response = 200 \<and> json response = Some files
            \<and> candidates_of files = [] \<longrightarrow>
            fst (load E self w identifier file_pattern) = Inl FileNotFoundError)"
  using assms by (simp add: load_def select_def Let_def)

text \<open>A project answered with 404, and a project whose listing has no candidate.\<close>

theorem load_error_kinds_witness:
  "fst (load sample_env caching_explorer fresh_world ''PXD000002'' (Some ''protein''))
     = Inl ValueError
   \<and> fst (load sample_env caching_explorer fresh_world ''PXD000001'' (Some ''protein''))
     = Inl FileNotFoundError"
proof -
  let ?r1 = "\<lparr>status_code = 200, body_chunks = [], stream_fails = False,
               json = Some [readme_small, raw_zip]\<rparr>"
  let ?r2 = "\<lparr>status_code = 404, body_chunks = [], stream_fails = False, json = None\<rparr>"
  have g1: "requests_get sample_env (api_url ''PXD000001'') = Some ?r1" by code_simp
  have g2: "requests_get sample_env (api_url ''PXD000002'') = Some ?r2" by code_simp
  have c: "candidates_of [readme_small, raw_zip] = []" by code_simp
  have "fst (load sample_env caching_explorer fresh_world ''PXD000002'' (Some ''protein''))
          = Inl ValueError"
    using load_error_kinds [OF g2, where self = caching_explorer and w = fresh_world
        and file_pattern = "Some ''protein''"] by simp
  moreover have
    "fst (load sample_env caching_explorer fresh_world ''PXD000001'' (Some ''protein''))
       = Inl FileNotFoundError"
    using load_error_kinds [OF g1, where files = "[readme_small, raw_zip]"
        and self = caching_explorer and w = fresh_world
        and file_pattern = "Some ''protein''"] c by simp
  ultimately show ?thesis by simp
qed

text \<open>
  C9 as stated fails: it promises an existing, empty cache root after the call from
  every state. An explorer constructed with caching off does not make the directory,
  and \<^verbatim>\<open>clear_cache\<close> then leaves it absent.
\<close>

theorem clear_cache_counterexample:
  "map_sum id use_cache (fst (init sample_env True False fresh_world)) = Inr False
   \<and> \<not> cache_dir_exists (clear_cache (snd (init sample_env True False fresh_world)))"
  by code_simp

text \<open>
  C9, amended. If the cache root exists, \<^verbatim>\<open>clear_cache\<close> leaves it existing and
  empty, whatever it held: no cached name exists afterwards. If it does not exist,
  \<^verbatim>\<open>clear_cache\<close> changes nothing. Temporary files and the request log are untouched.
\<close>

theorem clear_cache_empties:
  "(cache_dir_exists w \<longrightarrow> cache_dir (clear_cache w) = Some Map.empty
       \<and> (\<forall>filename. \<not> path_exists (clear_cache w) (InCache filename)))
   \<and> (\<not> cache_dir_exists w \<longrightarrow> clear_cache w = w)
   \<and> temp_files (clear_cache w) = temp_files w
   \<and> requests_log (clear_cache w) = requests_log w"
  by (simp add: clear_cache_def cache_dir_exists_def rmtree_def mkdir_exist_ok_def
      path_exists_def)

text \<open>A cache with three entries, and a world without the directory.\<close>

theorem clear_cache_empties_witness:
  "cache_dir (clear_cache cached_world) = Some Map.empty
   \<and> (\<forall>filename. \<not> path_exists (clear_cache cached_world) (InCache filename))
   \<and> clear_cache fresh_world = fresh_world"
proof -
  have 1: "cache_dir_exists cached_world"
    by (simp add: cache_dir_exists_def cached_world_def)
  have 2: "\<not> cache_dir_exists fresh_world"
    by (simp add: cache_dir_exists_def fresh_world_def)
  show ?thesis
    using clear_cache_empties [of cached_world] clear_cache_empties [of fresh_world] 1 2
    by simp
qed

section \<open>The claims about \<^verbatim>\<open>_read_file\<close> and \<^verbatim>\<open>_download_file\<close>\<close>

lemma endswith_any_Cons: "endswith_any s (x # xs) \<longleftrightarrow> endswith s x \<or> endswith_any s xs"
  by (simp add: endswith_any_def)

lemma endswith_any_Nil: "\<not> endswith_any s []"
  by (simp add: endswith_any_def)

lemma read_csv_path_error:
  "read_csv_path E w p sep = Inl e \<Longrightarrow>
     (file_content w p = None \<and> e = FileNotFoundError)
     \<or> (\<exists>raw. file_content w p = Some raw \<and> pd_open_text E (path_name p) raw = Inl e)
     \<or> (\<exists>content. pd_parse_csv E content sep = Inl e)"
  by (auto simp: read_csv_path_def split: option.splits sum.splits)

lemma read_excel_path_error:
  "read_excel_path E w p = Inl e \<Longrightarrow>
     (file_content w p = None \<and> e = FileNotFoundError)
     \<or> (\<exists>raw. file_content w p = Some raw \<and> pd_read_excel E raw = Inl e)"
  by (auto simp: read_excel_path_def split: option.splits)

lemma gzip_open_read_error:
  "gzip_open_read E w p = Inl e \<Longrightarrow>
     (file_content w p = None \<and> e = FileNotFoundError)
     \<or> (\<exists>raw. file_content w p = Some raw \<and> gzip_read_text E raw = Inl e)"
  by (auto simp: gzip_open_read_def split: option.splits)

lemma read_by_suffix_error:
  assumes "read_by_suffix E w p name = Inl e"
  shows "(file_content w p = None \<and> e = FileNotFoundError)
     \<or> (\<exists>raw. file_content w p = Some raw
           \<and> (pd_open_text E (path_name p) raw = Inl e \<or> pd_read_excel E raw = Inl e))
     \<or> (\<exists>content sep. pd_parse_csv E content sep = Inl e)"
proof -
  consider sep where "read_csv_path E w p sep = Inl e" | "read_excel_path E w p = Inl e"
    using assms by (auto simp: read_by_suffix_def split: if_splits)
  then show ?thesis
  proof cases
    case 1
    from read_csv_path_error [OF this] show ?thesis by blast
  next
    case 2
    from read_excel_path_error [OF this] show ?thesis by blast
  qed
qed

text \<open>
  C6 (the reader rejects no name). For every path: when \<^verbatim>\<open>_read_file\<close> fails, the
  error is that of a missing file or one that a library call (decompressing, opening,
  parsing) returned; the choice of the format by the suffix refuses nothing. And when
  the lower-cased name ends with none of \<^verbatim>\<open>.gz\<close>, \<^verbatim>\<open>.txt\<close>, \<^verbatim>\<open>.tsv\<close>, \<^verbatim>\<open>.csv\<close>,
  \<^verbatim>\<open>.xlsx\<close>, \<^verbatim>\<open>.xls\<close>, the file is read as tab-separated text.
\<close>

theorem read_file_never_rejects:
  "(read_file E w p = Inl e \<longrightarrow>
      (file_content w p = None \<and> e = FileNotFoundError)
      \<or> (\<exists>raw. file_content w p = Some raw
            \<and> (gzip_read_text E raw = Inl e \<or> pd_open_text E (path_name p) raw = Inl e
                 \<or> pd_read_excel E raw = Inl e))
      \<or> (\<exists>content sep. pd_parse_csv E content sep = Inl e))
   \<and> (\<not> endswith (lower (path_name p)) ''.gz''
        \<and> \<not> endswith_any (lower (path_name p)) [''.txt'', ''.tsv'', ''.csv'', ''.xlsx'', ''.xls'']
      \<longrightarrow> read_file E w p = read_csv_path E w p TAB)"
proof (intro conjI impI)
  assume err: "read_file E w p = Inl e"
  let ?name = "lower (path_name p)"
  let ?goal = "(file_content w p = None \<and> e = FileNotFoundError)
      \<or> (\<exists>raw. file_content w p = Some raw
            \<and> (gzip_read_text E raw = Inl e \<or> pd_open_text E (path_name p) raw = Inl e
                 \<or> pd_read_excel E raw = Inl e))
      \<or> (\<exists>content sep. pd_parse_csv E content sep = Inl e)"
  consider "gzip_open_read E w p = Inl e"
    | content sep where "read_csv_buffer E content sep = Inl e"
    | name where "read_by_suffix E w p name = Inl e"
    using err by (auto simp: read_file_def Let_def split: if_splits sum.splits)
  then show ?goal
  proof cases
    case 1
    from gzip_open_read_error [OF this] show ?thesis by blast
  next
    case 2
    then show ?thesis by (auto simp: read_csv_buffer_def)
  next
    case 3
    from read_by_suffix_error [OF this] show ?thesis by blast
  qed
next
  assume "\<not> endswith (lower (path_name p)) ''.gz''
        \<and> \<not> endswith_any (lower (path_name p)) [''.txt'', ''.tsv'', ''.csv'', ''.xlsx'', ''.xls'']"
  then show "read_file E w p = read_csv_path E w p TAB"
    by (simp add: read_file_def read_by_suffix_def endswith_any_Cons endswith_any_Nil)
qed

text \<open>
  A cached file with an unknown suffix is read as tab-separated text; the only failure
  for a name that is not in the cache is the missing file.
\<close>

theorem read_file_never_rejects_witness:
  "read_file sample_env cached_world (InCache ''results.dat'')
     = read_csv_path sample_env cached_world (InCache ''results.dat'') TAB
   \<and> file_content cached_world (InCache ''missing.txt.gz'') = None"
proof -
  have n: "\<not> endswith (lower (path_name (InCache ''results.dat''))) ''.gz''
        \<and> \<not> endswith_any (lower (path_name (InCache ''results.dat'')))
              [''.txt'', ''.tsv'', ''.csv'', ''.xlsx'', ''.xls'']"
    by code_simp
  have e: "read_file sample_env cached_world (InCache ''missing.txt.gz'') = Inl FileNotFoundError"
    by code_simp
  have g: "\<forall>raw. gzip_read_text sample_env raw \<noteq> Inl FileNotFoundError"
    by (simp add: gzip_read_text_def sample_env_def toy_gunzip_def)
  have o: "\<forall>name raw. pd_open_text sample_env name raw \<noteq> Inl FileNotFoundError"
    by (simp add: sample_env_def)
  have x: "\<forall>raw. pd_read_excel sample_env raw \<noteq> Inl FileNotFoundError"
    by (simp add: sample_env_def)
  have c: "\<forall>content sep. pd_parse_csv sample_env content sep \<noteq> Inl FileNotFoundError"
    by (simp add: sample_env_def toy_parse_csv_def split: list.splits)
  have 1: "read_file sample_env cached_world (InCache ''results.dat'')
            = read_csv_path sample_env cached_world (InCache ''results.dat'') TAB"
    using read_file_never_rejects [of sample_env cached_world "InCache ''results.dat''"] n
    by blast
  have 2: "file_content cached_world (InCache ''missing.txt.gz'') = None"
    using read_file_never_rejects [of sample_env cached_world "InCache ''missing.txt.gz''"
        FileNotFoundError] e g o x c
    by blast
  show ?thesis using 1 2 by simp
qed









lemma write_file_exists:
  "write_file w p bytes = Inr w' \<Longrightarrow> file_content w' p = Some bytes
     \<and> requests_log w' = requests_log w"
  by (cases p) (auto split: option.splits)

text \<open>
  C8 (the cache makes the download idempotent). With caching on, let a first call of
  \<^verbatim>\<open>_download_file\<close> return a path, leaving the world \<open>w1\<close>. A second call for the
  same URL and name, whatever the remote \<open>E'\<close> would answer by then, returns the same
  path and leaves \<open>w1\<close> as it is: no request is added to the log and the file under
  the path keeps its bytes. The path exists, and the two calls together made at most
  one request.
\<close>

theorem cache_idempotence:
  assumes "use_cache self"
    and "download_file E self w url filename = (Inr p, w1)"
  shows "download_file E' self w1 url filename = (Inr p, w1)
       \<and> path_exists w1 p
       \<and> length (requests_log w1) \<le> Suc (length (requests_log w))"
proof -
  let ?cp = "InCache filename"
  have "p = ?cp \<and> path_exists w1 ?cp
          \<and> length (requests_log w1) \<le> Suc (length (requests_log w))"
  proof (cases "path_exists w ?cp")
    case True
    then show ?thesis using assms by (simp add: download_file_def)
  next
    case False
    then obtain response where
      r: "requests_get E url = Some response" "\<not> raise_for_status response"
      using assms
      by (auto simp: download_file_def Let_def split: option.splits if_splits)
    then obtain w' where
      wr: "write_file (log_request url w) ?cp (concat (body_chunks response)) = Inr w'"
      and res: "p = ?cp" "w1 = w'"
      using assms False
      by (auto simp: download_file_def Let_def split: sum.splits if_splits)
    from write_file_exists [OF wr] show ?thesis
      using res by (simp add: path_exists_def log_request_def)
  qed
  then show ?thesis using assms(1) by (simp add: download_file_def)
qed

text \<open>A download into an empty cache, then the same call with the remote unreachable.\<close>

theorem cache_idempotence_witness:
  "download_file offline_env caching_explorer
     (snd (download_file sample_env caching_explorer (mkdir_exist_ok fresh_world)
             ''ftp://host/a'' ''pg.tsv''))
     ''ftp://host/a'' ''pg.tsv''
   = (Inr (InCache ''pg.tsv''),
      snd (download_file sample_env caching_explorer (mkdir_exist_ok fresh_world)
             ''ftp://host/a'' ''pg.tsv''))
   \<and> path_exists (snd (download_file sample_env caching_explorer (mkdir_exist_ok fresh_world)
             ''ftp://host/a'' ''pg.tsv'')) (InCache ''pg.tsv'')
   \<and> length (requests_log (snd (download_file sample_env caching_explorer
             (mkdir_exist_ok fresh_world) ''ftp://host/a'' ''pg.tsv'')))
       \<le> Suc (length (requests_log (mkdir_exist_ok fresh_world)))"
proof -
  have u: "use_cache caching_explorer" by code_simp
  have "fst (download_file sample_env caching_explorer (mkdir_exist_ok fresh_world)
          ''ftp://host/a'' ''pg.tsv'') = Inr (InCache ''pg.tsv'')"
    by code_simp
  then have d: "download_file sample_env caching_explorer (mkdir_exist_ok fresh_world)
          ''ftp://host/a'' ''pg.tsv''
      = (Inr (InCache ''pg.tsv''),
         snd (download_file sample_env caching_explorer (mkdir_exist_ok fresh_world)
                ''ftp://host/a'' ''pg.tsv''))"
    by (simp add: prod_eq_iff)
  show ?thesis by (rule cache_idempotence [OF u d])
qed

end
